theory Spec2Isabelle
  imports Complex_Main
begin

section \<open>Python and Spark string primitives\<close>

text \<open>
  Strings are lists of characters: for a header value one character for each code point
  of its Latin-1 decoding, for a string of Spark one for each byte of its UTF-8 encoding.
\<close>

text \<open>\<^verbatim>\<open>sub in s\<close> of Python and \<^verbatim>\<open>Column.contains\<close> of Spark: \<open>sub\<close> occurs in \<open>s\<close>.\<close>

fun contains :: "string \<Rightarrow> string \<Rightarrow> bool" where
  "contains [] sub = (sub = [])"
| "contains (c # cs) sub = (take (length sub) (c # cs) = sub \<or> contains cs sub)"

text \<open>
  \<^verbatim>\<open>s.split(sep)\<close> for a separator that is not empty (the source splits on \<^verbatim>\<open>", "\<close> and
  \<^verbatim>\<open>";"\<close> only): the pieces between the occurrences of \<open>sep\<close>, found from the left
  without overlap. \<open>cur\<close> holds the current piece, reversed.
\<close>

function py_split_from :: "string \<Rightarrow> string \<Rightarrow> string \<Rightarrow> string list" where
  "py_split_from sep cur [] = [rev cur]"
| "py_split_from sep cur (c # cs) =
     (if take (length sep) (c # cs) = sep
      then rev cur # py_split_from sep [] (drop (length sep - 1) cs)
      else py_split_from sep (c # cur) cs)"
  by pat_completeness auto
termination
  by (relation "measure (\<lambda>(sep, cur, s). length s)") auto

definition py_split :: "string \<Rightarrow> string \<Rightarrow> string list" where
  "py_split s sep = py_split_from sep [] s"

text \<open>\<^verbatim>\<open>s.strip(chars)\<close>: the characters of the set are removed from both ends.\<close>

definition py_strip :: "(char \<Rightarrow> bool) \<Rightarrow> string \<Rightarrow> string" where
  "py_strip drops s = rev (dropWhile drops (rev (dropWhile drops s)))"

text \<open>\<^verbatim>\<open>str.isspace\<close> on the code points below 256: what \<^verbatim>\<open>s.strip()\<close> and \<^verbatim>\<open>int(s)\<close> skip.\<close>

definition py_isspace :: "char \<Rightarrow> bool" where
  "py_isspace c \<longleftrightarrow>
     (of_char c :: nat) \<in> {9, 10, 11, 12, 13, 28, 29, 30, 31, 32, 133, 160}"

definition is_digit :: "char \<Rightarrow> bool" where
  "is_digit c \<longleftrightarrow> 48 \<le> (of_char c :: nat) \<and> (of_char c :: nat) \<le> 57"

text \<open>
  The digits of a decimal literal, most significant first; one underscore may stand
  between two digits. \<open>acc\<close> is the value read so far.
\<close>

fun py_digits :: "int \<Rightarrow> string \<Rightarrow> int option" where
  "py_digits acc [] = None"
| "py_digits acc [c] = (if is_digit c then Some (10 * acc + (of_char c - 48)) else None)"
| "py_digits acc (c # d # ds) =
     (if \<not> is_digit c then None
      else if d = CHR ''_'' then py_digits (10 * acc + (of_char c - 48)) ds
      else py_digits (10 * acc + (of_char c - 48)) (d # ds))"

text \<open>
  \<^verbatim>\<open>int(s)\<close> for a string: surrounding whitespace, an optional sign, decimal digits.
  \<open>None\<close> is the \<^verbatim>\<open>ValueError\<close> that Python raises for anything else.
\<close>

definition py_int :: "string \<Rightarrow> int option" where
  "py_int s =
     (case py_strip py_isspace s of
        [] \<Rightarrow> None
      | c # cs \<Rightarrow>
          if c = CHR ''-'' then map_option uminus (py_digits 0 cs)
          else if c = CHR ''+'' then py_digits 0 cs
          else py_digits 0 (c # cs))"

text \<open>\<^verbatim>\<open>int(x)\<close> for a float: the fraction is cut off, towards zero.\<close>

definition py_trunc :: "real \<Rightarrow> int" where
  "py_trunc x = (if 0 \<le> x then \<lfloor>x\<rfloor> else \<lceil>x\<rceil>)"

text \<open>
  \<^verbatim>\<open>lower\<close>: the letters A to Z become a to z, every other character stays. Spark maps
  letters outside ASCII too, but none of them to a letter of the word that line 53 looks
  for, so that the test of line 53 comes out the same.
\<close>

definition lower_char :: "char \<Rightarrow> char" where
  "lower_char c =
     (if 65 \<le> (of_char c :: nat) \<and> (of_char c :: nat) \<le> 90
      then char_of ((of_char c :: nat) + 32) else c)"

definition lower :: "string \<Rightarrow> string" where
  "lower s = map lower_char s"

section \<open>The Fetcher: \<^verbatim>\<open>fetch_data\<close> of \<^verbatim>\<open>data_extraction.py\<close>\<close>

subsection \<open>The world the Fetcher runs in\<close>

text \<open>The exceptions that can leave \<^verbatim>\<open>fetch_data\<close>; the source catches none.\<close>

datatype error = ValueError | KeyError | TypeError | RequestException

text \<open>
  A response, as far as the source reads it. \<open>headers r k\<close> is the lookup of the header
  \<open>k\<close> in \<^verbatim>\<open>response.headers\<close>. \<open>json r\<close> is what \<^verbatim>\<open>all_data.extend(response.json())\<close>
  appends, or the exception that decoding or extending raises; the elements stay abstract.
\<close>

record 'r response =
  status_code :: int
  headers :: "string \<rightharpoonup> string"
  json :: "error + 'r list"

text \<open>What the Fetcher does to the world, in the order it does it.\<close>

datatype event = Get string real | Sleep int

text \<open>
  \<open>clock\<close> is what \<^verbatim>\<open>time.time()\<close> returns; \<open>pending\<close> are the responses the server gives
  to the requests still to come, one for each; \<open>trace\<close> records every \<^verbatim>\<open>requests.get\<close>
  with its URL and the time it is issued at, and every \<^verbatim>\<open>time.sleep\<close> with its
  argument. The clock moves only while the Fetcher sleeps, by the time asked for, which
  is the least it can move. A request that no response is left for raises.
\<close>

record 'r world =
  clock :: real
  pending :: "'r response list"
  trace :: "event list"

text \<open>
  \<^verbatim>\<open>time.sleep(secs)\<close>: the call is recorded; a negative argument raises \<^verbatim>\<open>ValueError\<close>,
  any other lets the time pass.
\<close>

definition sleep :: "int \<Rightarrow> 'r world \<Rightarrow> error option \<times> 'r world" where
  "sleep secs w =
     (if secs < 0 then (Some ValueError, w\<lparr>trace := trace w @ [Sleep secs]\<rparr>)
      else (None, w\<lparr>clock := clock w + of_int secs, trace := trace w @ [Sleep secs]\<rparr>))"

subsection \<open>One pass through the loop\<close>

text \<open>The relation marker that line 42 looks for: \<^verbatim>\<open>rel="next"\<close>.\<close>

definition rel_next :: string where
  "rel_next = ''rel='' @ CHR 0x22 # ''next'' @ [CHR 0x22]"

text \<open>
  Lines 39 to 48: the URL of the next page. \<open>None\<close> is Python's \<^verbatim>\<open>None\<close>. The first
  piece of a split exists always, as \<open>py_split\<close> never returns the empty list.
\<close>

definition next_url :: "'r response \<Rightarrow> string option" where
  "next_url response =
     (case headers response ''Link'' of
        None \<Rightarrow> None
      | Some link_header \<Rightarrow>
          if link_header = [] then None
          else
            (let links = py_split link_header '', '';
                 next_link = filter (\<lambda>link. contains link rel_next) links
             in case next_link of
                  [] \<Rightarrow> None
                | link # _ \<Rightarrow>
                    Some (py_strip py_isspace
                      (py_strip (\<lambda>c. c \<in> set ''<>'') (hd (py_split link '';''))))))"

text \<open>
  Lines 49 to 53, the test of the \<^verbatim>\<open>elif\<close>: status 403, the header is there, and its
  value read as an integer is 0. Reading the value raises when it is no integer.
\<close>

definition rate_limited :: "'r response \<Rightarrow> error + bool" where
  "rate_limited response =
     (if status_code response = 403 then
        (case headers response ''X-RateLimit-Remaining'' of
           None \<Rightarrow> Inr False
         | Some remaining \<Rightarrow>
             (case py_int remaining of
                None \<Rightarrow> Inl ValueError
              | Some n \<Rightarrow> Inr (n = 0)))
      else Inr False)"

text \<open>
  Lines 55 to 57: the seconds to wait, from the reset time of the response and the clock.
  A missing header raises \<^verbatim>\<open>KeyError\<close>, one that is no integer \<^verbatim>\<open>ValueError\<close>.
\<close>

definition sleep_time :: "'r response \<Rightarrow> real \<Rightarrow> error + int" where
  "sleep_time response now =
     (case headers response ''X-RateLimit-Reset'' of
        None \<Rightarrow> Inl KeyError
      | Some reset \<Rightarrow>
          (case py_int reset of
             None \<Rightarrow> Inl ValueError
           | Some reset_time \<Rightarrow> Inr (reset_time - py_trunc now + 1)))"

text \<open>
  How one pass ends: the loop goes on with a URL (or \<^verbatim>\<open>None\<close>) and the list, it is left
  by \<^verbatim>\<open>break\<close>, or an exception leaves the function.
\<close>

datatype 'r flow =
  Continue "string option" "'r list" "'r world"
| Break "'r list" "'r world"
| Raise error "'r world"

text \<open>Lines 34 to 66, the body of the loop once \<open>response\<close> has arrived for \<open>url\<close>.\<close>

definition handle_response ::
  "'r response \<Rightarrow> string \<Rightarrow> 'r list \<Rightarrow> 'r world \<Rightarrow> 'r flow" where
  "handle_response response url all_data w =
     (if status_code response = 200 then
        (case json response of
           Inl e \<Rightarrow> Raise e w
         | Inr data \<Rightarrow> Continue (next_url response) (all_data @ data) w)
      else
        (case rate_limited response of
           Inl e \<Rightarrow> Raise e w
         | Inr True \<Rightarrow>
             (case sleep_time response (clock w) of
                Inl e \<Rightarrow> Raise e w
              | Inr secs \<Rightarrow>
                  (case sleep secs w of
                     (Some e, w') \<Rightarrow> Raise e w'
                   | (None, w') \<Rightarrow> Continue (Some url) all_data w'))
         | Inr False \<Rightarrow> Break all_data w))"

subsection \<open>The loop and the function\<close>

text \<open>One pass leaves the responses still to come as they are.\<close>

lemma handle_response_pending:
  "handle_response response url all_data w = Continue url' all_data' w' \<Longrightarrow>
   pending w' = pending w"
  by (auto simp: handle_response_def sleep_def
      split: if_splits sum.splits bool.splits option.splits)

text \<open>
  Lines 32 to 67. \<^verbatim>\<open>while url:\<close> goes on for a string that is not empty; \<^verbatim>\<open>None\<close> and
  \<^verbatim>\<open>""\<close> end it. Every request takes the next response off \<open>pending\<close>, so the loop ends
  with the responses at the latest. The result is the list returned or the exception
  raised, and the world as the call leaves it. What the function prints is left out.
\<close>

function fetch_loop ::
  "string option \<Rightarrow> 'r list \<Rightarrow> 'r world \<Rightarrow> (error + 'r list) \<times> 'r world" where
  "fetch_loop url all_data w =
     (case url of
        None \<Rightarrow> (Inr all_data, w)
      | Some u \<Rightarrow>
          if u = [] then (Inr all_data, w)
          else
            (case pending w of
               [] \<Rightarrow> (Inl RequestException, w\<lparr>trace := trace w @ [Get u (clock w)]\<rparr>)
             | response # rest \<Rightarrow>
                 (case handle_response response u all_data
                         (w\<lparr>pending := rest, trace := trace w @ [Get u (clock w)]\<rparr>) of
                    Continue url' all_data' w' \<Rightarrow> fetch_loop url' all_data' w'
                  | Break all_data' w' \<Rightarrow> (Inr all_data', w')
                  | Raise e w' \<Rightarrow> (Inl e, w'))))"
  by pat_completeness auto
termination
  by (relation "measure (\<lambda>(url, all_data, w). length (pending w))")
    (auto dest: handle_response_pending)

declare fetch_loop.simps [simp del]

definition fetch_data :: "string \<Rightarrow> 'r world \<Rightarrow> (error + 'r list) \<times> 'r world" where
  "fetch_data url w = fetch_loop (Some url) [] w"

section \<open>The Aggregator: \<^verbatim>\<open>data_transformation.py\<close>\<close>

subsection \<open>Values and conditions of Spark SQL\<close>

text \<open>
  A column value is \<open>None\<close> for SQL's \<^verbatim>\<open>NULL\<close>; the JSON reader gives \<^verbatim>\<open>NULL\<close> for a field
  that a record does not have. A condition over \<^verbatim>\<open>NULL\<close> is \<^verbatim>\<open>NULL\<close> itself, except that
  \<^verbatim>\<open>false AND NULL\<close> is false.
\<close>

definition sql_eq :: "'a option \<Rightarrow> 'a option \<Rightarrow> bool option" where
  "sql_eq x y = (case x of None \<Rightarrow> None | Some a \<Rightarrow> map_option (\<lambda>b. a = b) y)"

definition sql_and :: "bool option \<Rightarrow> bool option \<Rightarrow> bool option" where
  "sql_and p q =
     (if p = Some False \<or> q = Some False then Some False
      else if p = Some True \<and> q = Some True then Some True
      else None)"

definition sql_lower :: "string option \<Rightarrow> string option" where
  "sql_lower s = map_option lower s"

definition sql_contains :: "string option \<Rightarrow> string \<Rightarrow> bool option" where
  "sql_contains s sub = map_option (\<lambda>x. contains x sub) s"

text \<open>\<^verbatim>\<open>when(cond, a).otherwise(b)\<close>: \<open>a\<close> where the condition is true, \<open>b\<close> where it is false or \<^verbatim>\<open>NULL\<close>.\<close>

definition when_otherwise :: "bool option \<Rightarrow> 'a \<Rightarrow> 'a \<Rightarrow> 'a" where
  "when_otherwise cond a b = (if cond = Some True then a else b)"

text \<open>\<^verbatim>\<open>MAX\<close> over a group: the greatest of the values that are not \<^verbatim>\<open>NULL\<close>, \<^verbatim>\<open>NULL\<close> if there is none.\<close>

fun sql_max :: "('t::linorder) option list \<Rightarrow> 't option" where
  "sql_max [] = None"
| "sql_max (None # xs) = sql_max xs"
| "sql_max (Some x # xs) = (case sql_max xs of None \<Rightarrow> Some x | Some y \<Rightarrow> Some (max x y))"

text \<open>\<^verbatim>\<open>getItem(i)\<close> on an array: \<^verbatim>\<open>NULL\<close> past its end.\<close>

definition get_item :: "'a list \<Rightarrow> nat \<Rightarrow> 'a option" where
  "get_item xs i = (if i < length xs then Some (xs ! i) else None)"

subsection \<open>The tables\<close>

text \<open>A row of \<^verbatim>\<open>repo_raw_df\<close>, in the columns that line 25 reads: \<^verbatim>\<open>full_name\<close>, \<^verbatim>\<open>id\<close>, \<^verbatim>\<open>name\<close>, \<^verbatim>\<open>owner.login\<close>.\<close>

record repo_raw =
  repo_full_name :: "string option"
  repo_id :: "int option"
  repo_name :: "string option"
  repo_owner_login :: "string option"

text \<open>A row of \<^verbatim>\<open>repo_filtered_df\<close>.\<close>

record repo_filtered =
  rf_organization_name :: "string option"
  rf_repository_id :: "int option"
  rf_repository_name :: "string option"
  rf_repository_owner :: "string option"

text \<open>
  A row of \<^verbatim>\<open>pr_raw_df\<close>, in the columns that the query reads, \<^verbatim>\<open>head.repo.id\<close> and
  \<^verbatim>\<open>merged_at\<close>, and the \<^verbatim>\<open>repository\<close> tag that \<^verbatim>\<open>fetch_pull_requests\<close> wrote. The type of
  the timestamps is any linear order; Spark compares them as strings. The tables are
  taken as the JSON reader hands them over, with the columns that the query names in
  their schema; which schema the reader infers from a file is not part of the model.
\<close>

record 't pr_raw =
  head_repo_id :: "int option"
  pr_merged_at :: "'t option"
  repository :: "string option"

text \<open>A row of \<^verbatim>\<open>pr_aggregated_df\<close>.\<close>

record 't pr_aggregated =
  agg_repository_id :: "int option"
  agg_num_prs :: int
  agg_num_prs_merged :: int
  agg_merged_at :: "'t option"

text \<open>A row of the final \<^verbatim>\<open>final_df\<close>, its fields in the order of the \<^verbatim>\<open>select\<close> of line 58.\<close>

record 't compliance_record =
  organization_name :: "string option"
  repository_id :: "int option"
  repository_name :: "string option"
  repository_owner :: "string option"
  num_prs :: int
  num_prs_merged :: int
  merged_at :: "'t option"
  is_compliant :: bool

subsection \<open>The pipeline\<close>

text \<open>Lines 25 to 30.\<close>

definition repo_filtered_df :: "repo_raw list \<Rightarrow> repo_filtered list" where
  "repo_filtered_df repo_raw_df =
     map (\<lambda>row.
       \<lparr>rf_organization_name =
          (case repo_full_name row of
             None \<Rightarrow> None
           | Some full_name \<Rightarrow> get_item (py_split full_name ''/'') 0),
        rf_repository_id = repo_id row,
        rf_repository_name = repo_name row,
        rf_repository_owner = repo_owner_login row\<rparr>) repo_raw_df"

text \<open>
  Lines 35 to 45. \<^verbatim>\<open>GROUP BY\<close> makes one group for each value of the key, \<^verbatim>\<open>NULL\<close> being
  one of the values. Spark fixes no order of the groups; here they stand in the order
  of \<open>remdups\<close>.
\<close>

definition pr_aggregated_df :: "('t::linorder) pr_raw list \<Rightarrow> 't pr_aggregated list" where
  "pr_aggregated_df pull_requests =
     map (\<lambda>key.
       let group = filter (\<lambda>pr. head_repo_id pr = key) pull_requests
       in \<lparr>agg_repository_id = key,
           agg_num_prs = int (length group),
           agg_num_prs_merged =
             sum_list (map (\<lambda>pr. if pr_merged_at pr \<noteq> None then 1 else 0) group),
           agg_merged_at = sql_max (map pr_merged_at group)\<rparr>)
       (remdups (map head_repo_id pull_requests))"

text \<open>
  Line 47, the inner join on \<^verbatim>\<open>repository_id\<close>: the pairs of rows whose keys are equal
  as SQL has it, so that a \<^verbatim>\<open>NULL\<close> key equals nothing.
\<close>

definition joined_df ::
  "'t pr_aggregated list \<Rightarrow> repo_filtered list \<Rightarrow> ('t pr_aggregated \<times> repo_filtered) list" where
  "joined_df pr_aggregated repo_filtered =
     concat (map (\<lambda>a.
       map (\<lambda>r. (a, r))
         (filter (\<lambda>r. sql_eq (agg_repository_id a) (rf_repository_id r) = Some True)
            repo_filtered)) pr_aggregated)"

text \<open>The organization that line 53 looks for in the owner.\<close>

definition expected_owner :: string where
  "expected_owner = ''scytale''"

text \<open>Lines 49 to 67: the new column, and the columns selected.\<close>

definition classify :: "'t pr_aggregated \<times> repo_filtered \<Rightarrow> 't compliance_record" where
  "classify row =
     (case row of (a, r) \<Rightarrow>
       \<lparr>organization_name = rf_organization_name r,
        repository_id = agg_repository_id a,
        repository_name = rf_repository_name r,
        repository_owner = rf_repository_owner r,
        num_prs = agg_num_prs a,
        num_prs_merged = agg_num_prs_merged a,
        merged_at = agg_merged_at a,
        is_compliant =
          when_otherwise
            (sql_and (sql_eq (Some (agg_num_prs a)) (Some (agg_num_prs_merged a)))
               (sql_contains (sql_lower (rf_repository_owner r)) expected_owner))
            True False\<rparr>)"

definition final_df ::
  "repo_raw list \<Rightarrow> ('t::linorder) pr_raw list \<Rightarrow> 't compliance_record list" where
  "final_df repo_raw_df pr_raw_df =
     map classify (joined_df (pr_aggregated_df pr_raw_df) (repo_filtered_df repo_raw_df))"

text \<open>
  The columns of an output row by name, in the order of the \<^verbatim>\<open>select\<close>, each with its
  value.
\<close>

datatype 't cell =
  StringCell "string option"
| LongCell "int option"
| StampCell "'t option"
| BooleanCell "bool option"

definition columns :: "'t compliance_record \<Rightarrow> (string \<times> 't cell) list" where
  "columns row =
     [(''organization_name'', StringCell (organization_name row)),
      (''repository_id'', LongCell (repository_id row)),
      (''repository_name'', StringCell (repository_name row)),
      (''repository_owner'', StringCell (repository_owner row)),
      (''num_prs'', LongCell (Some (num_prs row))),
      (''num_prs_merged'', LongCell (Some (num_prs_merged row))),
      (''merged_at'', StampCell (merged_at row)),
      (''is_compliant'', BooleanCell (Some (is_compliant row)))]"

subsection \<open>Example tables\<close>

text \<open>
  Five repositories and eight pull requests, their merge timestamps written as numbers.
  Repository 3 has no pull request, repository 9 is known from a pull request only, one
  pull request has no \<^verbatim>\<open>head.repo.id\<close>, the owner of repository 4 is missing, and one of
  the two pull requests of repository 5 is not merged.
\<close>

definition example_repos :: "repo_raw list" where
  "example_repos =
     [\<lparr>repo_full_name = Some ''scytale/repoA'', repo_id = Some 1,
       repo_name = Some ''repoA'', repo_owner_login = Some ''Scytale-AI''\<rparr>,
      \<lparr>repo_full_name = Some ''other-org/repoB'', repo_id = Some 2,
       repo_name = Some ''repoB'', repo_owner_login = Some ''other-org''\<rparr>,
      \<lparr>repo_full_name = Some ''scytale/repoC'', repo_id = Some 3,
       repo_name = Some ''repoC'', repo_owner_login = Some ''scytale''\<rparr>,
      \<lparr>repo_full_name = Some ''scytale/repoD'', repo_id = Some 4,
       repo_name = Some ''repoD'', repo_owner_login = None\<rparr>,
      \<lparr>repo_full_name = Some ''scytale/repoE'', repo_id = Some 5,
       repo_name = Some ''repoE'', repo_owner_login = Some ''scytale''\<rparr>]"

definition example_prs :: "nat pr_raw list" where
  "example_prs =
     [\<lparr>head_repo_id = Some 1, pr_merged_at = Some 20240101, repository = Some ''repoA''\<rparr>,
      \<lparr>head_repo_id = Some 2, pr_merged_at = Some 20240103, repository = Some ''repoB''\<rparr>,
      \<lparr>head_repo_id = None, pr_merged_at = Some 20240104, repository = Some ''repoA''\<rparr>,
      \<lparr>head_repo_id = Some 1, pr_merged_at = Some 20240105, repository = Some ''repoA''\<rparr>,
      \<lparr>head_repo_id = Some 4, pr_merged_at = Some 20240106, repository = Some ''repoD''\<rparr>,
      \<lparr>head_repo_id = Some 9, pr_merged_at = None, repository = Some ''repoA''\<rparr>,
      \<lparr>head_repo_id = Some 5, pr_merged_at = Some 20240107, repository = Some ''repoE''\<rparr>,
      \<lparr>head_repo_id = Some 5, pr_merged_at = None, repository = Some ''repoE''\<rparr>]"

definition example_aggregated :: "nat pr_aggregated list" where
  "example_aggregated =
     [\<lparr>agg_repository_id = Some 2, agg_num_prs = 1, agg_num_prs_merged = 1,
       agg_merged_at = Some 20240103\<rparr>,
      \<lparr>agg_repository_id = None, agg_num_prs = 1, agg_num_prs_merged = 1,
       agg_merged_at = Some 20240104\<rparr>,
      \<lparr>agg_repository_id = Some 1, agg_num_prs = 2, agg_num_prs_merged = 2,
       agg_merged_at = Some 20240105\<rparr>,
      \<lparr>agg_repository_id = Some 4, agg_num_prs = 1, agg_num_prs_merged = 1,
       agg_merged_at = Some 20240106\<rparr>,
      \<lparr>agg_repository_id = Some 9, agg_num_prs = 1, agg_num_prs_merged = 0,
       agg_merged_at = None\<rparr>,
      \<lparr>agg_repository_id = Some 5, agg_num_prs = 2, agg_num_prs_merged = 1,
       agg_merged_at = Some 20240107\<rparr>]"

definition example_filtered :: "repo_filtered list" where
  "example_filtered =
     [\<lparr>rf_organization_name = Some ''scytale'', rf_repository_id = Some 1,
       rf_repository_name = Some ''repoA'', rf_repository_owner = Some ''Scytale-AI''\<rparr>,
      \<lparr>rf_organization_name = Some ''other-org'', rf_repository_id = Some 2,
       rf_repository_name = Some ''repoB'', rf_repository_owner = Some ''other-org''\<rparr>,
      \<lparr>rf_organization_name = Some ''scytale'', rf_repository_id = Some 3,
       rf_repository_name = Some ''repoC'', rf_repository_owner = Some ''scytale''\<rparr>,
      \<lparr>rf_organization_name = Some ''scytale'', rf_repository_id = Some 4,
       rf_repository_name = Some ''repoD'', rf_repository_owner = None\<rparr>,
      \<lparr>rf_organization_name = Some ''scytale'', rf_repository_id = Some 5,
       rf_repository_name = Some ''repoE'', rf_repository_owner = Some ''scytale''\<rparr>]"

definition row_repoA :: "nat compliance_record" where
  "row_repoA =
     \<lparr>organization_name = Some ''scytale'', repository_id = Some 1,
      repository_name = Some ''repoA'', repository_owner = Some ''Scytale-AI'',
      num_prs = 2, num_prs_merged = 2, merged_at = Some 20240105, is_compliant = True\<rparr>"

definition row_repoB :: "nat compliance_record" where
  "row_repoB =
     \<lparr>organization_name = Some ''other-org'', repository_id = Some 2,
      repository_name = Some ''repoB'', repository_owner = Some ''other-org'',
      num_prs = 1, num_prs_merged = 1, merged_at = Some 20240103, is_compliant = False\<rparr>"

definition row_repoD :: "nat compliance_record" where
  "row_repoD =
     \<lparr>organization_name = Some ''scytale'', repository_id = Some 4,
      repository_name = Some ''repoD'', repository_owner = None,
      num_prs = 1, num_prs_merged = 1, merged_at = Some 20240106, is_compliant = False\<rparr>"

definition row_repoE :: "nat compliance_record" where
  "row_repoE =
     \<lparr>organization_name = Some ''scytale'', repository_id = Some 5,
      repository_name = Some ''repoE'', repository_owner = Some ''scytale'',
      num_prs = 2, num_prs_merged = 1, merged_at = Some 20240107, is_compliant = False\<rparr>"

section \<open>Runs of the Fetcher\<close>

subsection \<open>Kinds of responses\<close>




text \<open>
  A 403 whose \<^verbatim>\<open>X-RateLimit-Remaining\<close> header is zero, and the reset time that its
  \<^verbatim>\<open>X-RateLimit-Reset\<close> header gives.
\<close>

definition zero_quota :: "'r response \<Rightarrow> bool" where
  "zero_quota r \<longleftrightarrow>
     status_code r = 403 \<and>
     Option.bind (headers r ''X-RateLimit-Remaining'') py_int = Some 0"

definition reset_of :: "'r response \<Rightarrow> int option" where
  "reset_of r = Option.bind (headers r ''X-RateLimit-Reset'') py_int"




subsection \<open>Example responses\<close>



definition example_page2 :: "nat response" where
  "example_page2 = \<lparr>status_code = 200, headers = Map.empty, json = Inr [3]\<rparr>"

definition example_quota :: "string \<Rightarrow> nat response" where
  "example_quota reset =
     \<lparr>status_code = 403,
      headers = [''X-RateLimit-Remaining'' \<mapsto> ''0'', ''X-RateLimit-Reset'' \<mapsto> reset],
      json = Inr []\<rparr>"



definition example_url :: string where
  "example_url = ''https://api.github.com/orgs/scytale/repos''"


text \<open>A world at half past second 200, with the responses given.\<close>

definition example_world :: "nat response list \<Rightarrow> nat world" where
  "example_world responses = \<lparr>clock = 401 / 2, pending = responses, trace = []\<rparr>"

section \<open>Properties of the primitives\<close>

lemma contains_iff: "contains s sub \<longleftrightarrow> (\<exists>pre post. s = pre @ sub @ post)"
proof (induction s)
  case Nil
  then show ?case by auto
next
  case (Cons c cs)
  show ?case
  proof
    assume "contains (c # cs) sub"
    then consider "take (length sub) (c # cs) = sub" | "contains cs sub" by auto
    then show "\<exists>pre post. c # cs = pre @ sub @ post"
    proof cases
      case 1
      then have "c # cs = [] @ sub @ drop (length sub) (c # cs)"
        by (metis append_Nil append_take_drop_id)
      then show ?thesis by blast
    next
      case 2
      with Cons.IH obtain pre post where "cs = pre @ sub @ post" by blast
      then have "c # cs = (c # pre) @ sub @ post" by simp
      then show ?thesis by blast
    qed
  next
    assume "\<exists>pre post. c # cs = pre @ sub @ post"
    then obtain pre post where eq: "c # cs = pre @ sub @ post" by blast
    show "contains (c # cs) sub"
    proof (cases pre)
      case Nil
      with eq have "take (length sub) (c # cs) = sub" by simp
      then show ?thesis by simp
    next
      case (Cons p ps)
      with eq have "cs = ps @ sub @ post" by simp
      with Cons.IH have "contains cs sub" by blast
      then show ?thesis by simp
    qed
  qed
qed

lemma py_split_from_nonempty: "py_split_from sep cur s \<noteq> []"
  by (induction sep cur s rule: py_split_from.induct) auto

lemma py_split_nonempty: "py_split s sep \<noteq> []"
  by (simp add: py_split_def py_split_from_nonempty)

lemma sum_list_indicator:
  "sum_list (map (\<lambda>x. if P x then 1 else 0) xs) = int (length (filter P xs))"
  by (induction xs) auto

lemma sql_eq_True: "sql_eq x y = Some True \<longleftrightarrow> (\<exists>k. x = Some k \<and> y = Some k)"
  by (cases x; cases y) (auto simp: sql_eq_def)

lemma sql_max_None: "sql_max xs = None \<longleftrightarrow> (\<forall>t. Some t \<notin> set xs)"
  by (induction xs rule: sql_max.induct) (auto split: option.splits)

lemma sql_max_Some:
  "Some t \<in> set xs \<Longrightarrow> sql_max xs = Some (Max {t. Some t \<in> set xs})"
proof (induction xs arbitrary: t rule: sql_max.induct)
  case 1
  then show ?case by simp
next
  case (2 xs)
  then have "Some t \<in> set xs" by simp
  moreover have "{t. Some t \<in> set (None # xs)} = {t. Some t \<in> set xs}" by auto
  ultimately show ?case using "2.IH" by simp
next
  case (3 x xs)
  have fin: "finite {t. Some t \<in> set xs}"
  proof -
    have "{t. Some t \<in> set xs} \<subseteq> the ` set xs" by force
    then show ?thesis by (rule finite_subset) simp
  qed
  have eq: "{t. Some t \<in> set (Some x # xs)} = insert x {t. Some t \<in> set xs}" by auto
  show ?case
  proof (cases "sql_max xs")
    case None
    then have "{t. Some t \<in> set xs} = {}" by (auto simp: sql_max_None)
    with None eq show ?thesis by simp
  next
    case (Some y)
    then obtain u where u: "Some u \<in> set xs"
      using sql_max_None [of xs] by auto
    then have y: "y = Max {t. Some t \<in> set xs}" using "3.IH" Some by simp
    from u have ne: "{t. Some t \<in> set xs} \<noteq> {}" by auto
    from Some y eq fin ne show ?thesis by simp
  qed
qed

lemma sql_max_eq:
  "sql_max xs = (if {t. Some t \<in> set xs} = {} then None else Some (Max {t. Some t \<in> set xs}))"
proof (cases "{t. Some t \<in> set xs} = {}")
  case True
  then have "sql_max xs = None" by (auto simp: sql_max_None)
  with True show ?thesis by simp
next
  case False
  then obtain t where "Some t \<in> set xs" by auto
  then have "sql_max xs = Some (Max {t. Some t \<in> set xs})" by (rule sql_max_Some)
  with False show ?thesis by simp
qed


lemma lower_examples:
  "lower ''Scytale-AI'' = ''scytale-ai''" "lower ''other-org'' = ''other-org''"
  "lower ''scytale'' = ''scytale''"
  by (simp_all add: lower_def lower_char_def char_of_eq_iff)

section \<open>Properties of the Aggregator\<close>

subsection \<open>The tables, row by row\<close>

lemma pr_aggregated_df_keys:
  "map agg_repository_id (pr_aggregated_df prs) = remdups (map head_repo_id prs)"
  by (simp add: pr_aggregated_df_def Let_def comp_def)

lemma pr_aggregated_df_row:
  "a \<in> set (pr_aggregated_df prs) \<longleftrightarrow>
   agg_repository_id a \<in> head_repo_id ` set prs \<and>
   a = \<lparr>agg_repository_id = agg_repository_id a,
        agg_num_prs = int (length (filter (\<lambda>pr. head_repo_id pr = agg_repository_id a) prs)),
        agg_num_prs_merged =
          int (length (filter (\<lambda>pr. pr_merged_at pr \<noteq> None)
            (filter (\<lambda>pr. head_repo_id pr = agg_repository_id a) prs))),
        agg_merged_at =
          sql_max (map pr_merged_at (filter (\<lambda>pr. head_repo_id pr = agg_repository_id a) prs))\<rparr>"
  by (auto simp: pr_aggregated_df_def Let_def sum_list_indicator)

lemma group_stamps:
  "{t. Some t \<in> set (map pr_merged_at (filter (\<lambda>pr. head_repo_id pr = key) prs))} =
   {t. \<exists>pr \<in> set prs. head_repo_id pr = key \<and> pr_merged_at pr = Some t}"
  by force

lemma pr_aggregated_df_retag:
  "pr_aggregated_df (map (\<lambda>pr. pr\<lparr>repository := tag pr\<rparr>) prs) = pr_aggregated_df prs"
proof -
  have keys: "map head_repo_id (map (\<lambda>pr. pr\<lparr>repository := tag pr\<rparr>) prs) = map head_repo_id prs"
    by simp
  have len: "length (filter (\<lambda>pr. head_repo_id pr = key) (map (\<lambda>pr. pr\<lparr>repository := tag pr\<rparr>) prs))
      = length (filter (\<lambda>pr. head_repo_id pr = key) prs)" for key
    by (induction prs) auto
  have stamps: "map pr_merged_at
        (filter (\<lambda>pr. head_repo_id pr = key) (map (\<lambda>pr. pr\<lparr>repository := tag pr\<rparr>) prs))
      = map pr_merged_at (filter (\<lambda>pr. head_repo_id pr = key) prs)" for key
    by (induction prs) auto
  have merged: "map (\<lambda>pr. if pr_merged_at pr \<noteq> None then 1 else (0::int))
        (filter (\<lambda>pr. head_repo_id pr = key) (map (\<lambda>pr. pr\<lparr>repository := tag pr\<rparr>) prs))
      = map (\<lambda>pr. if pr_merged_at pr \<noteq> None then 1 else 0)
          (filter (\<lambda>pr. head_repo_id pr = key) prs)" for key
    by (induction prs) auto
  show ?thesis
    unfolding pr_aggregated_df_def Let_def keys len stamps merged ..
qed

lemma joined_df_iff:
  "(a, r) \<in> set (joined_df aggs repos) \<longleftrightarrow>
   a \<in> set aggs \<and> r \<in> set repos \<and>
   (\<exists>k. agg_repository_id a = Some k \<and> rf_repository_id r = Some k)"
  by (auto simp: joined_df_def sql_eq_True)

lemma final_df_iff:
  "row \<in> set (final_df repos prs) \<longleftrightarrow>
   (\<exists>a r. row = classify (a, r) \<and> a \<in> set (pr_aggregated_df prs) \<and>
      r \<in> set (repo_filtered_df repos) \<and>
      (\<exists>k. agg_repository_id a = Some k \<and> rf_repository_id r = Some k))"
proof -
  have "row \<in> set (final_df repos prs) \<longleftrightarrow>
    (\<exists>a r. (a, r) \<in> set (joined_df (pr_aggregated_df prs) (repo_filtered_df repos)) \<and>
       row = classify (a, r))"
    by (auto simp: final_df_def)
  then show ?thesis
    by (simp only: joined_df_iff) blast
qed

lemma is_compliant_classify:
  "is_compliant (classify (a, r)) \<longleftrightarrow>
   agg_num_prs a = agg_num_prs_merged a \<and>
   (\<exists>owner. rf_repository_owner r = Some owner \<and> contains (lower owner) expected_owner)"
  by (cases "rf_repository_owner r")
    (auto simp: classify_def when_otherwise_def sql_and_def sql_eq_def sql_contains_def
      sql_lower_def)




subsection \<open>The example tables, computed\<close>

lemma pr_aggregated_df_example: "pr_aggregated_df example_prs = example_aggregated"
  by (simp add: pr_aggregated_df_def example_prs_def example_aggregated_def)

lemma repo_filtered_df_example: "repo_filtered_df example_repos = example_filtered"
  by (simp add: repo_filtered_df_def example_repos_def example_filtered_def py_split_def
      get_item_def)

lemma final_df_example:
  "final_df example_repos example_prs = [row_repoB, row_repoA, row_repoD, row_repoE]"
  by (simp add: final_df_def pr_aggregated_df_example repo_filtered_df_example
      example_aggregated_def example_filtered_def joined_df_def sql_eq_def classify_def
      when_otherwise_def sql_and_def sql_contains_def sql_lower_def lower_examples
      expected_owner_def row_repoA_def row_repoB_def row_repoD_def row_repoE_def)

subsection \<open>The claims about the Aggregator\<close>

text \<open>
  Claim C9. In every row of the pull-request aggregate, the number of merged pull requests
  is at most the number of pull requests.
\<close>

theorem num_prs_merged_le_num_prs:
  "a \<in> set (pr_aggregated_df prs) \<Longrightarrow> agg_num_prs_merged a \<le> agg_num_prs a"
proof -
  assume "a \<in> set (pr_aggregated_df prs)"
  then obtain key where
    m: "agg_num_prs_merged a =
          int (length (filter (\<lambda>pr. pr_merged_at pr \<noteq> None)
            (filter (\<lambda>pr. head_repo_id pr = key) prs)))"
    and n: "agg_num_prs a = int (length (filter (\<lambda>pr. head_repo_id pr = key) prs))"
    by (auto simp: pr_aggregated_df_def Let_def sum_list_indicator)
  have "length (filter (\<lambda>pr. pr_merged_at pr \<noteq> None) (filter (\<lambda>pr. head_repo_id pr = key) prs))
      \<le> length (filter (\<lambda>pr. head_repo_id pr = key) prs)"
    by (rule length_filter_le)
  with m n show ?thesis by simp
qed

theorem num_prs_merged_le_num_prs_witness:
  "example_aggregated ! 5 \<in> set (pr_aggregated_df example_prs) \<and>
   agg_num_prs_merged (example_aggregated ! 5) \<le> agg_num_prs (example_aggregated ! 5) \<and>
   agg_num_prs_merged (example_aggregated ! 5) = 1 \<and> agg_num_prs (example_aggregated ! 5) = 2"
proof -
  have mem: "example_aggregated ! 5 \<in> set (pr_aggregated_df example_prs)"
    by (simp add: pr_aggregated_df_example) (simp add: example_aggregated_def)
  from num_prs_merged_le_num_prs [OF mem] mem show ?thesis
    by (simp add: example_aggregated_def)
qed

text \<open>
  Claim C1. In every output row, \<open>is_compliant\<close> is true if and only if \<open>num_prs\<close> equals
  \<open>num_prs_merged\<close> and the owner is present and, in lower case, contains \<^verbatim>\<open>scytale\<close>; so it
  is false when the counts differ, when the owner lacks the substring, and when the owner
  is missing.
\<close>

theorem is_compliant_iff:
  "row \<in> set (final_df repos prs) \<Longrightarrow>
   is_compliant row \<longleftrightarrow>
     num_prs row = num_prs_merged row \<and>
     (\<exists>owner pre post. repository_owner row = Some owner \<and>
        lower owner = pre @ ''scytale'' @ post)"
proof -
  assume "row \<in> set (final_df repos prs)"
  then obtain a r where row: "row = classify (a, r)"
    by (auto simp: final_df_iff)
  have "num_prs row = agg_num_prs a" "num_prs_merged row = agg_num_prs_merged a"
    "repository_owner row = rf_repository_owner r"
    by (simp_all add: row classify_def)
  then show ?thesis
    by (simp add: row is_compliant_classify contains_iff expected_owner_def)
qed

theorem is_compliant_iff_witness:
  "row_repoA \<in> set (final_df example_repos example_prs) \<and>
   num_prs row_repoA = num_prs_merged row_repoA \<and>
   repository_owner row_repoA = Some ''Scytale-AI'' \<and>
   lower ''Scytale-AI'' = [] @ ''scytale'' @ ''-ai'' \<and>
   is_compliant row_repoA \<and>
   row_repoB \<in> set (final_df example_repos example_prs) \<and>
   num_prs row_repoB = num_prs_merged row_repoB \<and>
   repository_owner row_repoB = Some ''other-org'' \<and>
   \<not> is_compliant row_repoB \<and>
   row_repoD \<in> set (final_df example_repos example_prs) \<and>
   num_prs row_repoD = num_prs_merged row_repoD \<and>
   repository_owner row_repoD = None \<and>
   \<not> is_compliant row_repoD \<and>
   row_repoE \<in> set (final_df example_repos example_prs) \<and>
   num_prs row_repoE \<noteq> num_prs_merged row_repoE \<and>
   repository_owner row_repoE = Some ''scytale'' \<and>
   \<not> is_compliant row_repoE"
proof -
  have mem: "row_repoA \<in> set (final_df example_repos example_prs)"
    "row_repoB \<in> set (final_df example_repos example_prs)"
    "row_repoD \<in> set (final_df example_repos example_prs)"
    "row_repoE \<in> set (final_df example_repos example_prs)"
    by (simp_all add: final_df_example)
  have counts: "num_prs row_repoA = num_prs_merged row_repoA"
    "num_prs row_repoB = num_prs_merged row_repoB"
    "num_prs row_repoD = num_prs_merged row_repoD"
    "num_prs row_repoE \<noteq> num_prs_merged row_repoE"
    by (simp_all add: row_repoA_def row_repoB_def row_repoD_def row_repoE_def)
  have owner: "repository_owner row_repoA = Some ''Scytale-AI''"
    "repository_owner row_repoB = Some ''other-org''"
    "repository_owner row_repoD = None"
    "repository_owner row_repoE = Some ''scytale''"
    by (simp_all add: row_repoA_def row_repoB_def row_repoD_def row_repoE_def)
  have low: "lower ''Scytale-AI'' = [] @ ''scytale'' @ ''-ai''"
    by (simp add: lower_examples)
  have "\<not> contains (lower ''other-org'') ''scytale''"
    by (simp add: lower_examples)
  then have other: "\<not> (\<exists>pre post. lower ''other-org'' = pre @ ''scytale'' @ post)"
    by (simp add: contains_iff)
  from counts(1) owner(1) low have
    "num_prs row_repoA = num_prs_merged row_repoA \<and>
     (\<exists>owner pre post. repository_owner row_repoA = Some owner \<and>
        lower owner = pre @ ''scytale'' @ post)"
    by blast
  with is_compliant_iff [OF mem(1)] have a: "is_compliant row_repoA" by blast
  from is_compliant_iff [OF mem(2)] owner(2) other have b: "\<not> is_compliant row_repoB"
    by simp
  from is_compliant_iff [OF mem(3)] owner(3) have d: "\<not> is_compliant row_repoD"
    by simp
  from is_compliant_iff [OF mem(4)] counts(4) have e: "\<not> is_compliant row_repoE"
    by simp
  from mem counts owner low a b d e show ?thesis by blast
qed

text \<open>
  Claim C3. The join is inner on \<open>repository_id\<close>: the identifiers of the output rows are
  those that stand both in the pull-request aggregate and in the repository summary.
  \<^verbatim>\<open>NULL\<close> is no identifier; an identifier of one table only gives no row.
\<close>

theorem join_is_inner:
  "repository_id ` set (final_df repos prs) =
   {k. k \<noteq> None \<and> k \<in> agg_repository_id ` set (pr_aggregated_df prs) \<and>
       k \<in> rf_repository_id ` set (repo_filtered_df repos)}"
proof (rule set_eqI, rule iffI)
  fix k
  assume "k \<in> repository_id ` set (final_df repos prs)"
  then obtain a r i where "k = repository_id (classify (a, r))"
    and "a \<in> set (pr_aggregated_df prs)" and "r \<in> set (repo_filtered_df repos)"
    and "agg_repository_id a = Some i" and "rf_repository_id r = Some i"
    by (auto simp: final_df_iff)
  moreover have "repository_id (classify (a, r)) = agg_repository_id a"
    by (simp add: classify_def)
  ultimately show "k \<in> {k. k \<noteq> None \<and> k \<in> agg_repository_id ` set (pr_aggregated_df prs) \<and>
       k \<in> rf_repository_id ` set (repo_filtered_df repos)}"
    by force
next
  fix k
  assume "k \<in> {k. k \<noteq> None \<and> k \<in> agg_repository_id ` set (pr_aggregated_df prs) \<and>
       k \<in> rf_repository_id ` set (repo_filtered_df repos)}"
  then have "k \<noteq> None" and "k \<in> agg_repository_id ` set (pr_aggregated_df prs)"
    and "k \<in> rf_repository_id ` set (repo_filtered_df repos)"
    by simp_all
  then obtain i a r where k: "k = Some i" and a: "a \<in> set (pr_aggregated_df prs)"
    and r: "r \<in> set (repo_filtered_df repos)"
    and ai: "agg_repository_id a = Some i" and ri: "rf_repository_id r = Some i"
    by (cases k) auto
  from a r ai ri have "classify (a, r) \<in> set (final_df repos prs)"
    unfolding final_df_iff by blast
  moreover from k ai have "repository_id (classify (a, r)) = k"
    by (simp add: classify_def)
  ultimately show "k \<in> repository_id ` set (final_df repos prs)" by force
qed

theorem join_is_inner_witness:
  "Some 1 \<in> repository_id ` set (final_df example_repos example_prs) \<and>
   Some 3 \<in> rf_repository_id ` set (repo_filtered_df example_repos) \<and>
   Some 3 \<notin> repository_id ` set (final_df example_repos example_prs) \<and>
   Some 9 \<in> agg_repository_id ` set (pr_aggregated_df example_prs) \<and>
   Some 9 \<notin> repository_id ` set (final_df example_repos example_prs)"
  unfolding join_is_inner [of example_repos example_prs]
  by (simp add: pr_aggregated_df_example repo_filtered_df_example example_aggregated_def
      example_filtered_def)

text \<open>
  Claim C5. The aggregation groups the pull requests by \<^verbatim>\<open>head.repo.id\<close>: there is one row
  for each value of it, and none other. In the row of a value, \<open>num_prs\<close> counts the pull
  requests with this value, \<open>num_prs_merged\<close> those of them with a merge timestamp, and
  \<open>merged_at\<close> is the greatest of their merge timestamps, or \<^verbatim>\<open>NULL\<close> when none has one.
  The \<^verbatim>\<open>repository\<close> tag plays no part: whatever the tags are changed to, the table is
  the same.
\<close>

theorem pr_aggregation_by_head_repo_id:
  "distinct (map agg_repository_id (pr_aggregated_df prs)) \<and>
   set (map agg_repository_id (pr_aggregated_df prs)) = head_repo_id ` set prs \<and>
   (\<forall>a \<in> set (pr_aggregated_df prs).
      agg_num_prs a = int (length [pr \<leftarrow> prs. head_repo_id pr = agg_repository_id a]) \<and>
      agg_num_prs_merged a =
        int (length [pr \<leftarrow> prs. head_repo_id pr = agg_repository_id a \<and> pr_merged_at pr \<noteq> None]) \<and>
      agg_merged_at a =
        (if {t. \<exists>pr \<in> set prs. head_repo_id pr = agg_repository_id a \<and> pr_merged_at pr = Some t} = {}
         then None
         else Some (Max {t. \<exists>pr \<in> set prs. head_repo_id pr = agg_repository_id a \<and>
                       pr_merged_at pr = Some t}))) \<and>
   pr_aggregated_df (map (\<lambda>pr. pr\<lparr>repository := tag pr\<rparr>) prs) = pr_aggregated_df prs"
proof (intro conjI ballI)
  show "distinct (map agg_repository_id (pr_aggregated_df prs))"
    by (simp add: pr_aggregated_df_keys)
  show "set (map agg_repository_id (pr_aggregated_df prs)) = head_repo_id ` set prs"
    by (simp add: pr_aggregated_df_keys)
  show "pr_aggregated_df (map (\<lambda>pr. pr\<lparr>repository := tag pr\<rparr>) prs) = pr_aggregated_df prs"
    by (rule pr_aggregated_df_retag)
next
  fix a :: "'a pr_aggregated"
  assume "a \<in> set (pr_aggregated_df prs)"
  then have a: "a = \<lparr>agg_repository_id = agg_repository_id a,
        agg_num_prs = int (length (filter (\<lambda>pr. head_repo_id pr = agg_repository_id a) prs)),
        agg_num_prs_merged =
          int (length (filter (\<lambda>pr. pr_merged_at pr \<noteq> None)
            (filter (\<lambda>pr. head_repo_id pr = agg_repository_id a) prs))),
        agg_merged_at =
          sql_max (map pr_merged_at (filter (\<lambda>pr. head_repo_id pr = agg_repository_id a) prs))\<rparr>"
    by (simp add: pr_aggregated_df_row)
  show "agg_num_prs a = int (length [pr \<leftarrow> prs. head_repo_id pr = agg_repository_id a])"
    by (subst a) simp
  show "agg_num_prs_merged a =
      int (length [pr \<leftarrow> prs. head_repo_id pr = agg_repository_id a \<and> pr_merged_at pr \<noteq> None])"
    by (subst a) (simp add: conj_commute)
  show "agg_merged_at a =
      (if {t. \<exists>pr \<in> set prs. head_repo_id pr = agg_repository_id a \<and> pr_merged_at pr = Some t} = {}
       then None
       else Some (Max {t. \<exists>pr \<in> set prs. head_repo_id pr = agg_repository_id a \<and>
                     pr_merged_at pr = Some t}))"
    by (subst a, simp only: pr_aggregated.simps, subst sql_max_eq, simp only: group_stamps)
qed

theorem pr_aggregation_by_head_repo_id_witness:
  "example_aggregated ! 2 \<in> set (pr_aggregated_df example_prs) \<and>
   agg_repository_id (example_aggregated ! 2) = Some 1 \<and>
   agg_num_prs (example_aggregated ! 2) = int (length [pr \<leftarrow> example_prs. head_repo_id pr = Some 1]) \<and>
   agg_num_prs (example_aggregated ! 2) = 2 \<and>
   pr_aggregated_df (map (\<lambda>pr. pr\<lparr>repository := None\<rparr>) example_prs) = example_aggregated"
proof -
  have mem: "example_aggregated ! 2 \<in> set (pr_aggregated_df example_prs)"
    by (simp add: pr_aggregated_df_example) (simp add: example_aggregated_def)
  have key: "agg_repository_id (example_aggregated ! 2) = Some 1"
    and two: "agg_num_prs (example_aggregated ! 2) = 2"
    by (simp_all add: example_aggregated_def)
  note all = pr_aggregation_by_head_repo_id [of example_prs "\<lambda>pr. None"]
  from all mem have
    "agg_num_prs (example_aggregated ! 2) =
       int (length [pr \<leftarrow> example_prs. head_repo_id pr = agg_repository_id (example_aggregated ! 2)])"
    by blast
  moreover from all have
    "pr_aggregated_df (map (\<lambda>pr. pr\<lparr>repository := None\<rparr>) example_prs) = example_aggregated"
    by (simp add: pr_aggregated_df_example)
  ultimately show ?thesis using mem key two by simp
qed



text \<open>
  Claim C7, amended. Every output row has the eight columns of the \<^verbatim>\<open>select\<close> of line 58
  and no other, in the order written there: the four of the repository summary, the
  three counts and timestamp of the aggregate, and \<open>is_compliant\<close>.
\<close>

theorem final_df_columns:
  "row \<in> set (final_df repos prs) \<Longrightarrow>
   map fst (columns row) =
     [''organization_name'', ''repository_id'', ''repository_name'', ''repository_owner'',
      ''num_prs'', ''num_prs_merged'', ''merged_at'', ''is_compliant''] \<and>
   length (columns row) = 8"
  by (simp add: columns_def)

theorem final_df_columns_witness:
  "row_repoA \<in> set (final_df example_repos example_prs) \<and>
   map fst (columns row_repoA) =
     [''organization_name'', ''repository_id'', ''repository_name'', ''repository_owner'',
      ''num_prs'', ''num_prs_merged'', ''merged_at'', ''is_compliant''] \<and>
   columns row_repoA ! 7 = (''is_compliant'', BooleanCell (Some True))"
proof -
  have mem: "row_repoA \<in> set (final_df example_repos example_prs)"
    by (simp add: final_df_example)
  have "columns row_repoA ! 7 = (''is_compliant'', BooleanCell (Some True))"
    by (simp add: columns_def row_repoA_def)
  with final_df_columns [OF mem] mem show ?thesis by simp
qed

text \<open>The claim as it was written, with seven columns, fails on the example tables.\<close>

theorem final_df_columns_not_seven:
  "\<not> (\<forall>row \<in> set (final_df example_repos example_prs). length (columns row) = 7)"
  by (auto simp: final_df_example columns_def)

section \<open>Properties of the Fetcher\<close>

subsection \<open>The tests of one pass\<close>

lemma rate_limited_True_iff: "rate_limited r = Inr True \<longleftrightarrow> zero_quota r"
  by (auto simp: rate_limited_def zero_quota_def split: option.splits)

lemma rate_limited_False_iff:
  "rate_limited r = Inr False \<longleftrightarrow>
   status_code r \<noteq> 403 \<or> headers r ''X-RateLimit-Remaining'' = None \<or>
   (\<exists>n. Option.bind (headers r ''X-RateLimit-Remaining'') py_int = Some n \<and> n \<noteq> 0)"
  by (auto simp: rate_limited_def split: option.splits)

lemma sleep_time_reset_of:
  "reset_of r = Some reset_time \<Longrightarrow> sleep_time r now = Inr (reset_time - py_trunc now + 1)"
  by (auto simp: sleep_time_def reset_of_def bind_eq_Some_conv)

lemma py_trunc_le: "0 \<le> x \<Longrightarrow> of_int (py_trunc x) \<le> x"
  by (simp add: py_trunc_def)

subsection \<open>The three ways through the body of the loop\<close>


lemma handle_response_retry:
  assumes "status_code r \<noteq> 200" and "zero_quota r" and "reset_of r = Some reset_time"
    and "0 \<le> reset_time - py_trunc (clock w) + 1"
  shows "handle_response r url all_data w =
    Continue (Some url) all_data
      (w\<lparr>clock := clock w + of_int (reset_time - py_trunc (clock w) + 1),
         trace := trace w @ [Sleep (reset_time - py_trunc (clock w) + 1)]\<rparr>)"
proof -
  from assms(2) have "rate_limited r = Inr True" by (simp add: rate_limited_True_iff)
  moreover from assms(3) have
    "sleep_time r (clock w) = Inr (reset_time - py_trunc (clock w) + 1)"
    by (rule sleep_time_reset_of)
  ultimately show ?thesis using assms(1,4)
    by (simp add: handle_response_def sleep_def)
qed

lemma handle_response_negative_wait:
  assumes "status_code r \<noteq> 200" and "zero_quota r" and "reset_of r = Some reset_time"
    and "reset_time - py_trunc (clock w) + 1 < 0"
  shows "handle_response r url all_data w =
    Raise ValueError (w\<lparr>trace := trace w @ [Sleep (reset_time - py_trunc (clock w) + 1)]\<rparr>)"
proof -
  from assms(2) have "rate_limited r = Inr True" by (simp add: rate_limited_True_iff)
  moreover from assms(3) have
    "sleep_time r (clock w) = Inr (reset_time - py_trunc (clock w) + 1)"
    by (rule sleep_time_reset_of)
  ultimately show ?thesis using assms(1,4)
    by (simp add: handle_response_def sleep_def)
qed


subsection \<open>The loop, one request at a time\<close>

lemma fetch_loop_done:
  "fetch_loop None all_data w = (Inr all_data, w)"
  "fetch_loop (Some []) all_data w = (Inr all_data, w)"
  by (simp_all add: fetch_loop.simps)

lemma fetch_loop_request:
  assumes "u \<noteq> []" and "pending w = r # rest"
  shows "fetch_loop (Some u) all_data w =
    (case handle_response r u all_data
            (w\<lparr>pending := rest, trace := trace w @ [Get u (clock w)]\<rparr>) of
       Continue url' all_data' w' \<Rightarrow> fetch_loop url' all_data' w'
     | Break all_data' w' \<Rightarrow> (Inr all_data', w')
     | Raise e w' \<Rightarrow> (Inl e, w'))"
  using assms by (subst fetch_loop.simps) simp


lemma fetch_loop_retry:
  assumes "u \<noteq> []" and "pending w = r # rest" and "status_code r \<noteq> 200"
    and "zero_quota r" and "reset_of r = Some reset_time"
    and "0 \<le> reset_time - py_trunc (clock w) + 1"
  shows "fetch_loop (Some u) all_data w =
    fetch_loop (Some u) all_data
      (w\<lparr>clock := clock w + of_int (reset_time - py_trunc (clock w) + 1),
         pending := rest,
         trace := trace w @ [Get u (clock w), Sleep (reset_time - py_trunc (clock w) + 1)]\<rparr>)"
proof -
  let ?secs = "reset_time - py_trunc (clock w) + 1"
  let ?w1 = "w\<lparr>pending := rest, trace := trace w @ [Get u (clock w)]\<rparr>"
  let ?w2 = "w\<lparr>clock := clock w + of_int ?secs, pending := rest,
    trace := trace w @ [Get u (clock w), Sleep ?secs]\<rparr>"
  from assms(6) have "0 \<le> reset_time - py_trunc (clock ?w1) + 1" by simp
  from handle_response_retry [OF assms(3,4,5) this]
  have "handle_response r u all_data ?w1 =
      Continue (Some u) all_data
        (?w1\<lparr>clock := clock ?w1 + of_int (reset_time - py_trunc (clock ?w1) + 1),
           trace := trace ?w1 @ [Sleep (reset_time - py_trunc (clock ?w1) + 1)]\<rparr>)" .
  moreover have
    "?w1\<lparr>clock := clock ?w1 + of_int (reset_time - py_trunc (clock ?w1) + 1),
        trace := trace ?w1 @ [Sleep (reset_time - py_trunc (clock ?w1) + 1)]\<rparr> = ?w2"
    by simp
  ultimately have "handle_response r u all_data ?w1 = Continue (Some u) all_data ?w2"
    by (rule trans [OF _ arg_cong])
  then show ?thesis by (simp only: fetch_loop_request [OF assms(1,2)] flow.case)
qed



subsection \<open>Reading a \<^verbatim>\<open>Link\<close> header\<close>

lemma py_split_from_absent:
  "sep \<noteq> [] \<Longrightarrow> hd sep \<notin> set s \<Longrightarrow> py_split_from sep cur s = [rev cur @ s]"
proof (induction s arbitrary: cur)
  case Nil
  then show ?case by simp
next
  case (Cons c cs)
  from Cons.prems have "take (length sep) (c # cs) \<noteq> sep"
    by (cases sep) auto
  with Cons show ?case by simp
qed

lemma py_split_from_first:
  "c \<notin> set pre \<Longrightarrow>
   py_split_from [c] cur (pre @ c # post) = (rev cur @ pre) # py_split_from [c] [] post"
  by (induction pre arbitrary: cur) auto

lemma py_strip_unchanged: "\<forall>c \<in> set s. \<not> drops c \<Longrightarrow> py_strip drops s = s"
proof -
  have keep: "dropWhile drops xs = xs" if "\<forall>c \<in> set xs. \<not> drops c" for xs
    using that by (cases xs) auto
  assume s: "\<forall>c \<in> set s. \<not> drops c"
  then have "\<forall>c \<in> set (rev s). \<not> drops c" by simp
  with s show ?thesis by (simp add: py_strip_def keep)
qed

lemma py_strip_brackets:
  assumes "\<forall>c \<in> set u. c \<noteq> CHR ''<'' \<and> c \<noteq> CHR ''>''"
  shows "py_strip (\<lambda>c. c \<in> set ''<>'') (CHR ''<'' # u @ ''>'') = u"
proof -
  have keep: "dropWhile (\<lambda>c. c \<in> set ''<>'') xs = xs"
    if "\<forall>c \<in> set xs. c \<noteq> CHR ''<'' \<and> c \<noteq> CHR ''>''" for xs
    using that by (cases xs) auto
  show ?thesis
  proof (cases u)
    case Nil
    then show ?thesis by (simp add: py_strip_def)
  next
    case (Cons c cs)
    with assms have "dropWhile (\<lambda>c. c \<in> set ''<>'') (CHR ''<'' # u @ ''>'') = u @ ''>''"
      by simp
    moreover from assms have "dropWhile (\<lambda>c. c \<in> set ''<>'') (rev u) = rev u"
      by (intro keep) simp
    ultimately show ?thesis by (simp add: py_strip_def)
  qed
qed

text \<open>
  A header that holds the one link \<^verbatim>\<open><u>; rel="next"\<close> gives \<open>u\<close>, for a URL \<open>u\<close> free of
  commas, semicolons, angle brackets and whitespace.
\<close>

lemma next_url_of_next_link:
  assumes link: "headers r ''Link'' = Some (CHR ''<'' # u @ ''>; '' @ rel_next)"
    and plain: "\<forall>c \<in> set u. c \<notin> set '',;<>'' \<and> \<not> py_isspace c"
  shows "next_url r = Some u"
proof -
  let ?header = "CHR ''<'' # u @ ''>; '' @ rel_next"
  from plain have comma: "CHR '','' \<notin> set ?header"
    by (auto simp: rel_next_def)
  have links: "py_split ?header '', '' = [?header]"
    using py_split_from_absent [of "'', ''" ?header "[]"] comma
    by (simp add: py_split_def)
  have marked: "contains ?header rel_next"
    unfolding contains_iff by (intro exI [of _ "CHR ''<'' # u @ ''>; ''"] exI [of _ "[]"]) simp
  from plain have "CHR '';'' \<notin> set (CHR ''<'' # u @ ''>'')" by auto
  from py_split_from_first [OF this, of "[]" "CHR '' '' # rel_next"]
  have first: "hd (py_split ?header '';'') = CHR ''<'' # u @ ''>''"
    by (simp add: py_split_def)
  from plain have "py_strip (\<lambda>c. c \<in> set ''<>'') (CHR ''<'' # u @ ''>'') = u"
    by (intro py_strip_brackets) auto
  moreover from plain have "py_strip py_isspace u = u"
    by (intro py_strip_unchanged) auto
  ultimately show ?thesis
    using link links marked first by (simp add: next_url_def)
qed

subsection \<open>The example responses, computed\<close>




lemma py_int_examples:
  "py_int ''0'' = Some 0" "py_int ''100'' = Some 100" "py_int ''300'' = Some 300"
  "py_int ''10000000000'' = Some 10000000000" "py_int ''unknown'' = None"
  by (simp_all add: py_int_def py_strip_def py_isspace_def is_digit_def)

lemma zero_quota_example: "zero_quota (example_quota reset)"
  by (simp add: zero_quota_def example_quota_def py_int_examples)

lemma reset_of_example: "reset_of (example_quota reset) = py_int reset"
  by (simp add: reset_of_def example_quota_def)





subsection \<open>The claims about the Fetcher\<close>






subsection \<open>What the trace of a call looks like\<close>

lemma handle_response_trace:
  "handle_response r u all_data w = Continue url' all_data' w' \<Longrightarrow>
   \<exists>later. trace w' = trace w @ later"
  "handle_response r u all_data w = Break all_data' w' \<Longrightarrow> \<exists>later. trace w' = trace w @ later"
  "handle_response r u all_data w = Raise e w' \<Longrightarrow> \<exists>later. trace w' = trace w @ later"
  by (auto simp: handle_response_def sleep_def
      split: if_splits sum.splits bool.splits option.splits)

lemma fetch_loop_trace_extends:
  "\<exists>later. trace (snd (fetch_loop url all_data w)) = trace w @ later"
proof (induction url all_data w rule: fetch_loop.induct)
  case (1 url all_data w)
  show ?case
  proof (cases url)
    case None
    then show ?thesis by (simp add: fetch_loop_done)
  next
    case (Some u)
    show ?thesis
    proof (cases "u = []")
      case True
      with Some show ?thesis by (simp add: fetch_loop_done)
    next
      case False
      show ?thesis
      proof (cases "pending w")
        case Nil
        with Some False show ?thesis by (simp add: fetch_loop.simps)
      next
        case (Cons r rest)
        let ?w1 = "w\<lparr>pending := rest, trace := trace w @ [Get u (clock w)]\<rparr>"
        note unfold = fetch_loop_request [OF False Cons, of all_data]
        show ?thesis
        proof (cases "handle_response r u all_data ?w1")
          case (Continue url' all_data' w')
          from handle_response_trace(1) [OF Continue]
          obtain l1 where l1: "trace w' = trace ?w1 @ l1" by blast
          from "1.IH" [OF Some False Cons Continue]
          obtain l2 where "trace (snd (fetch_loop url' all_data' w')) = trace w' @ l2"
            by blast
          with l1 Some Continue unfold show ?thesis by simp
        next
          case (Break all_data' w')
          from handle_response_trace(2) [OF Break]
          obtain l1 where "trace w' = trace ?w1 @ l1" by blast
          with Some Break unfold show ?thesis by simp
        next
          case (Raise e w')
          from handle_response_trace(3) [OF Raise]
          obtain l1 where "trace w' = trace ?w1 @ l1" by blast
          with Some Raise unfold show ?thesis by simp
        qed
      qed
    qed
  qed
qed

lemma fetch_loop_first_request:
  assumes "u \<noteq> []"
  shows "\<exists>later. trace (snd (fetch_loop (Some u) all_data w)) = trace w @ Get u (clock w) # later"
proof (cases "pending w")
  case Nil
  with assms show ?thesis by (simp add: fetch_loop.simps)
next
  case (Cons r rest)
  let ?w1 = "w\<lparr>pending := rest, trace := trace w @ [Get u (clock w)]\<rparr>"
  note unfold = fetch_loop_request [OF assms Cons, of all_data]
  show ?thesis
  proof (cases "handle_response r u all_data ?w1")
    case (Continue url' all_data' w')
    from handle_response_trace(1) [OF Continue]
    obtain l1 where l1: "trace w' = trace ?w1 @ l1" by blast
    obtain l2 where "trace (snd (fetch_loop url' all_data' w')) = trace w' @ l2"
      using fetch_loop_trace_extends by blast
    with l1 Continue unfold show ?thesis by simp
  next
    case (Break all_data' w')
    from handle_response_trace(2) [OF Break]
    obtain l1 where "trace w' = trace ?w1 @ l1" by blast
    with Break unfold show ?thesis by simp
  next
    case (Raise e w')
    from handle_response_trace(3) [OF Raise]
    obtain l1 where "trace w' = trace ?w1 @ l1" by blast
    with Raise unfold show ?thesis by simp
  qed
qed

subsection \<open>The wait for the quota\<close>

lemma zero_quota_status: "zero_quota r \<Longrightarrow> status_code r \<noteq> 200"
  by (simp add: zero_quota_def)

text \<open>
  A zero-quota response whose wait is not negative, received at or after the epoch: the
  loop goes on with the same URL and the same list, the next request is for that URL,
  and it is made no earlier than one second after the reset time.
\<close>

lemma retry_same_url_after_reset:
  assumes "u \<noteq> []" and "pending w = r # rest" and "zero_quota r"
    and "reset_of r = Some reset_time" and "0 \<le> clock w"
    and "0 \<le> reset_time - py_trunc (clock w) + 1"
  shows "\<exists>resumed later. of_int reset_time + 1 \<le> resumed \<and>
    fetch_loop (Some u) all_data w =
      fetch_loop (Some u) all_data
        (w\<lparr>clock := resumed, pending := rest,
           trace := trace w @ [Get u (clock w), Sleep (reset_time - py_trunc (clock w) + 1)]\<rparr>) \<and>
    trace (snd (fetch_loop (Some u) all_data w)) =
      trace w @ [Get u (clock w), Sleep (reset_time - py_trunc (clock w) + 1), Get u resumed]
        @ later"
proof -
  let ?secs = "reset_time - py_trunc (clock w) + 1"
  let ?resumed = "clock w + of_int ?secs"
  let ?w' = "w\<lparr>clock := ?resumed, pending := rest,
    trace := trace w @ [Get u (clock w), Sleep ?secs]\<rparr>"
  have step: "fetch_loop (Some u) all_data w = fetch_loop (Some u) all_data ?w'"
    by (rule fetch_loop_retry [OF assms(1,2) zero_quota_status [OF assms(3)] assms(3,4,6)])
  from py_trunc_le [OF assms(5)] have late: "of_int reset_time + 1 \<le> ?resumed" by simp
  obtain later where
    "trace (snd (fetch_loop (Some u) all_data ?w')) = trace ?w' @ Get u (clock ?w') # later"
    using fetch_loop_first_request [OF assms(1)] by blast
  then have "trace (snd (fetch_loop (Some u) all_data w)) =
      trace w @ [Get u (clock w), Sleep ?secs, Get u ?resumed] @ later"
    by (simp add: step)
  with step late show ?thesis by blast
qed

lemma fetch_loop_negative_wait:
  assumes "u \<noteq> []" and "pending w = r # rest" and "zero_quota r"
    and "reset_of r = Some reset_time" and "reset_time - py_trunc (clock w) + 1 < 0"
  shows "fetch_loop (Some u) all_data w =
    (Inl ValueError,
     w\<lparr>pending := rest,
       trace := trace w @ [Get u (clock w), Sleep (reset_time - py_trunc (clock w) + 1)]\<rparr>)"
proof -
  let ?w1 = "w\<lparr>pending := rest, trace := trace w @ [Get u (clock w)]\<rparr>"
  from assms(5) have "reset_time - py_trunc (clock ?w1) + 1 < 0" by simp
  from handle_response_negative_wait [OF zero_quota_status [OF assms(3)] assms(3,4) this]
  show ?thesis by (simp add: fetch_loop_request [OF assms(1,2)])
qed

text \<open>
  Claim C4, at an input where it fails. The clock stands at 200.5 and the first response
  is a zero-quota 403 whose reset time is 100: the wait comes out as \<open>-99\<close>, the sleep
  raises \<^verbatim>\<open>ValueError\<close>, and the call ends there. The URL is not requested again, though
  a page was ready for it.
\<close>

theorem fetch_data_negative_wait_raises:
  "fetch_data example_url (example_world [example_quota ''100'', example_page2]) =
   (Inl ValueError,
    \<lparr>clock = 401 / 2, pending = [example_page2],
      trace = [Get example_url (401 / 2), Sleep (- 99)]\<rparr>)"
proof -
  let ?w = "example_world [example_quota ''100'', example_page2]"
  have "fetch_loop (Some example_url) [] ?w =
    (Inl ValueError,
     ?w\<lparr>pending := [example_page2],
        trace := trace ?w @ [Get example_url (clock ?w), Sleep (100 - py_trunc (clock ?w) + 1)]\<rparr>)"
    by (rule fetch_loop_negative_wait [where r = "example_quota ''100''"])
      (simp_all add: example_url_def example_world_def zero_quota_example reset_of_example
        py_int_examples py_trunc_def)
  then show ?thesis
    by (simp add: fetch_data_def example_world_def py_trunc_def)
qed




end
